theory Spec2Isabelle
  imports Main
begin

section \<open>Python values, strings and errors\<close>

text \<open>
  The values that reach the wrapper: \<^verbatim>\<open>None\<close>, booleans, integers and (byte) strings.
  Exceptions are values of \<open>error\<close>; a computation that may raise returns
  \<open>error + 'a\<close> with \<open>Inl\<close> for the exception.  \<open>Exception msg\<close> is the plain
  \<^verbatim>\<open>Exception(msg)\<close> the module raises itself; the other constructors are the
  built-in exceptions the interpreter raises.
\<close>

datatype pyval = PNone | PBool bool | PInt int | PStr string

datatype error =
    IndexError | TypeError | ValueError | AttributeError | OSError
  | Exception string

text \<open>A value that is either a string or a list of strings, as compared by \<^verbatim>\<open>in\<close>.\<close>

datatype pyobj = Str string | Lst "string list"

type_synonym row = "string \<rightharpoonup> string"

subsection \<open>\<^verbatim>\<open>str\<close>, \<^verbatim>\<open>repr\<close> and \<^verbatim>\<open>lower\<close>\<close>

definition digit :: "nat \<Rightarrow> char" where
  "digit d = ''0123456789abcdef'' ! d"

fun str_nat :: "nat \<Rightarrow> string" where
  "str_nat n = (if n < 10 then [digit n] else str_nat (n div 10) @ [digit (n mod 10)])"

declare str_nat.simps [simp del]

definition str_int :: "int \<Rightarrow> string" where
  "str_int i = (if i < 0 then CHR ''-'' # str_nat (nat (- i)) else str_nat (nat i))"

text \<open>The value a decimal numeral denotes, used to state that \<open>str_int\<close> is decimal.\<close>

definition digit_val :: "char \<Rightarrow> nat" where
  "digit_val c = of_char c - 48"

definition dec_val :: "string \<Rightarrow> nat" where
  "dec_val s = foldl (\<lambda>a c. 10 * a + digit_val c) 0 s"

definition dec_int :: "string \<Rightarrow> int" where
  "dec_int s = (case s of [] \<Rightarrow> 0
                | c # cs \<Rightarrow> if c = CHR ''-'' then - int (dec_val cs) else int (dec_val s))"

text \<open>\<^verbatim>\<open>str.lower()\<close> on a byte string: the 26 ASCII capitals, nothing else.\<close>

definition lower_char :: "char \<Rightarrow> char" where
  "lower_char c =
     (case map_of (zip ''ABCDEFGHIJKLMNOPQRSTUVWXYZ'' ''abcdefghijklmnopqrstuvwxyz'') c of
        Some d \<Rightarrow> d
      | None \<Rightarrow> c)"

definition lower :: "string \<Rightarrow> string" where
  "lower s = map lower_char s"

definition is_upper :: "char \<Rightarrow> bool" where
  "is_upper c = (c \<in> set ''ABCDEFGHIJKLMNOPQRSTUVWXYZ'')"

text \<open>\<^verbatim>\<open>repr\<close> of a byte string (quote choice and escapes of the interpreter).\<close>

definition repr_char :: "char \<Rightarrow> char \<Rightarrow> string" where
  "repr_char q c =
     (if c = q \<or> c = CHR 0x5C then [CHR 0x5C, c]
      else if c = CHR 0x09 then [CHR 0x5C, CHR ''t'']
      else if c = CHR 0x0A then [CHR 0x5C, CHR ''n'']
      else if c = CHR 0x0D then [CHR 0x5C, CHR ''r'']
      else if (of_char c :: nat) < 32 \<or> (127 :: nat) \<le> of_char c
        then [CHR 0x5C, CHR ''x'', digit (of_char c div 16), digit (of_char c mod 16)]
      else [c])"

definition repr_str :: "string \<Rightarrow> string" where
  "repr_str s =
     (let q = (if CHR 0x27 \<in> set s \<and> CHR 0x22 \<notin> set s then CHR 0x22 else CHR 0x27)
      in [q] @ concat (map (repr_char q) s) @ [q])"

fun py_str :: "pyval \<Rightarrow> string" where
  "py_str PNone = ''None''"
| "py_str (PBool b) = (if b then ''True'' else ''False'')"
| "py_str (PInt i) = str_int i"
| "py_str (PStr s) = s"

fun py_repr :: "pyval \<Rightarrow> string" where
  "py_repr (PStr s) = repr_str s"
| "py_repr v = py_str v"

subsection \<open>\<^verbatim>\<open>sep.join(xs)\<close> and \<^verbatim>\<open>s.split(sep)\<close>\<close>

fun join :: "string \<Rightarrow> string list \<Rightarrow> string" where
  "join sep [] = []"
| "join sep [x] = x"
| "join sep (x # y # ys) = x @ sep @ join sep (y # ys)"

text \<open>
  \<^verbatim>\<open>s.split(c)\<close> for a one-character separator.  The result is never the empty list, so
  the first branch of the \<open>case\<close> is never taken.
\<close>

fun split_on :: "char \<Rightarrow> string \<Rightarrow> string list" where
  "split_on sep [] = [[]]"
| "split_on sep (c # cs) =
     (if c = sep then [] # split_on sep cs
      else (case split_on sep cs of
              [] \<Rightarrow> [[c]]
            | part # parts \<Rightarrow> (c # part) # parts))"

text \<open>\<^verbatim>\<open>s.split(c, 1)\<close>: at most one split, at the first separator.\<close>

definition split_first :: "char \<Rightarrow> string \<Rightarrow> string list" where
  "split_first sep s =
     (if sep \<in> set s
      then [takeWhile (\<lambda>c. c \<noteq> sep) s, tl (dropWhile (\<lambda>c. c \<noteq> sep) s)]
      else [s])"

text \<open>\<^verbatim>\<open>dict(pairs)\<close>: a later pair overwrites an earlier one with the same key.\<close>

definition dict :: "(string \<times> string) list \<Rightarrow> row" where
  "dict kvs = foldl (\<lambda>m (k, v). m(k \<mapsto> v)) Map.empty kvs"

text \<open>
  \<^verbatim>\<open>str(xs)\<close> of a list, and of the \<^verbatim>\<open>possibleargs\<close> of a command (\<^verbatim>\<open>None\<close> or
  a list).
\<close>

definition str_list :: "pyval list \<Rightarrow> string" where
  "str_list xs = ''['' @ join '', '' (map py_repr xs) @ '']''"

definition str_possibleargs :: "pyval list option \<Rightarrow> string" where
  "str_possibleargs p = (case p of None \<Rightarrow> ''None'' | Some xs \<Rightarrow> str_list xs)"

section \<open>The field table\<close>

text \<open>
  \<^verbatim>\<open>NMCLI_FIELDS\<close>, a dictionary with five keys; the lists are the values of the
  \<^verbatim>\<open>split\<close> calls of the source.
\<close>

definition NMCLI_FIELDS :: "(string \<times> string list) list" where
  "NMCLI_FIELDS =
     [(''nm'', [''RUNNING'', ''STATE'', ''WIFI-HARDWARE'', ''WIFI'', ''WWAN-HARDWARE'', ''WWAN'']),
      (''dev'', [''DEVICE'', ''TYPE'', ''STATE'']),
      (''con'', [''NAME'', ''UUID'', ''TYPE'', ''TIMESTAMP-REAL'']),
      (''con status'', [''NAME'', ''UUID'', ''DEVICES'', ''DEFAULT'', ''VPN'', ''MASTER-PATH'']),
      (''con list id'',
         [''connection'', ''802-3-ethernet'', ''802-1x'', ''802-11-wireless'',
          ''802-11-wireless-security'', ''ipv4'', ''ipv6'', ''serial'', ''ppp'', ''pppoe'',
          ''gsm'', ''cdma'', ''bluetooth'', ''802-11-olpc-mesh'', ''vpn'', ''infiniband'',
          ''bond'', ''vlan''])]"

definition NMCLI_MULTILINE_KEYS :: "string list" where
  "NMCLI_MULTILINE_KEYS = [''con list id'']"

section \<open>Field resolution\<close>

text \<open>
  \<^verbatim>\<open>_build_fields(ns, fields, multiline)\<close>.  The lookup of \<^verbatim>\<open>' '.join(ns)\<close> that
  succeeds rebinds \<^verbatim>\<open>fields\<close> to the table entry and then tests
  \<^verbatim>\<open>fields in NMCLI_MULTILINE_KEYS\<close>, that is, whether that list of field names equals
  one of the strings of the tuple.  On \<^verbatim>\<open>KeyError\<close> the last element of \<^verbatim>\<open>ns\<close> is
  popped and the search repeats; \<^verbatim>\<open>pop\<close> on the empty list raises \<^verbatim>\<open>IndexError\<close>.
\<close>

function build_fields ::
  "string list \<Rightarrow> string list option \<Rightarrow> bool \<Rightarrow> error + (string list \<times> string list \<times> bool)"
where
  "build_fields ns fields multiline =
     (case map_of NMCLI_FIELDS (join '' '' ns) of
        Some fields' \<Rightarrow>
          Inr (ns, fields',
               if Lst fields' \<in> set (map Str NMCLI_MULTILINE_KEYS) then True else multiline)
      | None \<Rightarrow>
          if ns = [] then Inl IndexError
          else build_fields (butlast ns) fields multiline)"
  by pat_completeness auto
termination
  by (relation "measure (\<lambda>(ns, fields, multiline). length ns)") auto

declare build_fields.simps [simp del]

section \<open>Output parsing\<close>

text \<open>
  The two loops of \<^verbatim>\<open>_nmcli\<close> over \<^verbatim>\<open>stdout.split('\n')\<close>.  In the multiline loop the
  assignment \<^verbatim>\<open>field, prop = multikey.split('.')\<close> unpacks exactly two values and raises
  \<^verbatim>\<open>ValueError\<close> for any other number.
\<close>

fun multiline_loop :: "string list \<Rightarrow> row \<Rightarrow> error + row" where
  "multiline_loop [] row = Inr row"
| "multiline_loop (line # lines) row =
     (case split_first CHR '':'' line of
        [multikey, val] \<Rightarrow>
          (case split_on CHR ''.'' multikey of
             [field, prop] \<Rightarrow> multiline_loop lines (row(prop \<mapsto> val))
           | _ \<Rightarrow> Inl ValueError)
      | _ \<Rightarrow> multiline_loop lines row)"

fun single_loop :: "string list \<Rightarrow> string list \<Rightarrow> row list \<Rightarrow> row list" where
  "single_loop fields [] data = data"
| "single_loop fields (line # lines) data =
     (let vals = split_on CHR '':'' line in
      if length vals = length fields
      then single_loop fields lines (data @ [dict (zip fields vals)])
      else single_loop fields lines data)"

definition parse :: "string \<Rightarrow> string list \<Rightarrow> bool \<Rightarrow> error + row list" where
  "parse stdout fields multiline =
     (if multiline
      then (case multiline_loop (split_on CHR 0x0A stdout) Map.empty of
              Inl e \<Rightarrow> Inl e
            | Inr row \<Rightarrow> Inr ([] @ [row]))
      else Inr (single_loop fields (split_on CHR 0x0A stdout) []))"

section \<open>The query\<close>

definition process_msg :: "int \<Rightarrow> string \<Rightarrow> string" where
  "process_msg retcode stderr =
     ''nmcli return '' @ str_int retcode @ '' code. STDERR='' @ [CHR 0x27] @ stderr @ [CHR 0x27]"

text \<open>
  \<^verbatim>\<open>_nmcli(obj, command=None, fields=None, multiline=False)\<close>.  The two library
  calls are parameters: \<open>shlex_split\<close> is \<^verbatim>\<open>shlex.split\<close> (\<open>None\<close> when it raises
  \<^verbatim>\<open>ValueError\<close>) and \<open>shell\<close> is \<^verbatim>\<open>_shell\<close>, the run of the external tool on an
  argument vector (\<open>Inl\<close> when the process cannot be started).  The last argument is
  the list of argument vectors handed to \<open>shell\<close> so far; the call returns it extended
  by its own invocation, if it makes one.  \<open>obj\<close> is a string, as at every call of the
  module.  With \<^verbatim>\<open>command=None\<close> the list \<^verbatim>\<open>ns\<close> holds \<^verbatim>\<open>None\<close> and the first
  \<^verbatim>\<open>' '.join(ns)\<close> raises \<^verbatim>\<open>TypeError\<close>.
\<close>

definition nmcli ::
  "(string \<Rightarrow> string list option) \<Rightarrow> (string list \<Rightarrow> error + (int \<times> string \<times> string)) \<Rightarrow>
   string \<Rightarrow> string option \<Rightarrow> string list option \<Rightarrow> bool \<Rightarrow>
   string list list \<Rightarrow> (error + row list) \<times> string list list"
where
  "nmcli shlex_split shell obj command fields multiline log =
     (case command of
        None \<Rightarrow> (Inl TypeError, log)
      | Some cmd \<Rightarrow>
         (let ns = [obj, cmd] @ (case fields of None \<Rightarrow> [] | Some fs \<Rightarrow> fs) in
          case build_fields ns fields multiline of
            Inl e \<Rightarrow> (Inl e, log)
          | Inr (ns', fields', multiline') \<Rightarrow>
             (case (if cmd \<noteq> [] then shlex_split cmd else Some []) of
                None \<Rightarrow> (Inl ValueError, log)
              | Some toks \<Rightarrow>
                 (let args = [''nmcli'', ''--terse'', ''--fields'', join '','' fields',
                              if obj \<noteq> [] then obj else []] @ toks in
                  case shell args of
                    Inl e \<Rightarrow> (Inl e, log @ [args])
                  | Inr (retcode, stdout, stderr) \<Rightarrow>
                      if retcode = 0 then (parse stdout fields' multiline', log @ [args])
                      else (Inl (Exception (process_msg retcode stderr)), log @ [args])))))"

section \<open>Actions\<close>

text \<open>\<^verbatim>\<open>sanitize_arg\<close> and \<^verbatim>\<open>sanitize_args\<close> (on a list, and on \<^verbatim>\<open>possibleargs\<close>).\<close>

fun sanitize_arg :: "pyval \<Rightarrow> pyval" where
  "sanitize_arg (PBool b) = PStr (lower (py_str (PBool b)))"
| "sanitize_arg (PInt i) = PStr (py_str (PInt i))"
| "sanitize_arg (PStr s) = PStr (lower s)"
| "sanitize_arg PNone = PNone"

definition sanitize_args :: "pyval list \<Rightarrow> pyval list" where
  "sanitize_args args = map sanitize_arg args"

definition usableargs :: "pyval list option \<Rightarrow> pyval list option" where
  "usableargs possibleargs = map_option sanitize_args possibleargs"

text \<open>
  \<^verbatim>\<open>arg not in usableargs\<close>: a membership test on a list, \<^verbatim>\<open>TypeError\<close> on \<^verbatim>\<open>None\<close>.
\<close>

definition py_not_in :: "pyval \<Rightarrow> pyval list option \<Rightarrow> error + bool" where
  "py_not_in arg usable =
     (case usable of None \<Rightarrow> Inl TypeError | Some us \<Rightarrow> Inr (arg \<notin> set us))"

definition invalid_msg :: "pyval \<Rightarrow> string \<Rightarrow> pyval list option \<Rightarrow> string" where
  "invalid_msg arg command possibleargs =
     py_str arg @ '' is not a valid argument for '' @ [CHR 0x27] @ command @ [CHR 0x27]
       @ ''. Parameters: '' @ str_possibleargs possibleargs"

definition verify_arg :: "string \<Rightarrow> pyval list option \<Rightarrow> pyval \<Rightarrow> error + pyval" where
  "verify_arg command possibleargs arg =
     (let arg' = sanitize_arg arg in
      case py_not_in arg' (usableargs possibleargs) of
        Inl e \<Rightarrow> Inl e
      | Inr True \<Rightarrow> Inl (Exception (invalid_msg arg' command possibleargs))
      | Inr False \<Rightarrow> Inr arg')"

fun verify_args :: "string \<Rightarrow> pyval list option \<Rightarrow> pyval list \<Rightarrow> error + pyval list" where
  "verify_args command possibleargs [] = Inr []"
| "verify_args command possibleargs (arg # args) =
     (case verify_arg command possibleargs arg of
        Inl e \<Rightarrow> Inl e
      | Inr v \<Rightarrow>
         (case verify_args command possibleargs args of
            Inl e \<Rightarrow> Inl e
          | Inr vs \<Rightarrow> Inr (v # vs)))"

text \<open>
  The positional parameter \<^verbatim>\<open>args\<close> of an action is \<^verbatim>\<open>None\<close>, one value, or a list of
  values; \<^verbatim>\<open>**kwargs\<close> is a dictionary from names to values, given as the list of its
  items in iteration order.
\<close>

datatype pyargs = Scalar pyval | ListOf "pyval list"

type_synonym kwargs = "(string \<times> pyval) list"

text \<open>The candidate tokens: lines 177 to 184 of \<^verbatim>\<open>run_action\<close>.\<close>

definition candidates :: "pyargs \<Rightarrow> kwargs \<Rightarrow> pyval list" where
  "candidates args kwargs =
     (let args1 = (case args of Scalar PNone \<Rightarrow> [] | Scalar v \<Rightarrow> [v] | ListOf vs \<Rightarrow> vs)
      in if kwargs \<noteq> [] then args1 @ map (\<lambda>(k, v). PStr k) kwargs else args1)"

text \<open>
  One entry of \<^verbatim>\<open>opts\<close>: the token itself when it is no key of \<^verbatim>\<open>kwargs\<close>, else
  \<^verbatim>\<open>"%s %s" % (arg, sanitize_args(kwargs[arg]))\<close>.
\<close>

definition opt_of :: "kwargs \<Rightarrow> pyval \<Rightarrow> pyval" where
  "opt_of kwargs arg =
     (case arg of
        PStr k \<Rightarrow>
          (case map_of kwargs k of
             None \<Rightarrow> arg
           | Some v \<Rightarrow> PStr (py_str arg @ '' '' @ py_str (sanitize_arg v)))
      | _ \<Rightarrow> arg)"

text \<open>\<^verbatim>\<open>' '.join(opts)\<close> raises \<^verbatim>\<open>TypeError\<close> on an item that is no string.\<close>

fun strings_of :: "pyval list \<Rightarrow> string list option" where
  "strings_of [] = Some []"
| "strings_of (PStr s # vs) = map_option ((#) s) (strings_of vs)"
| "strings_of (v # vs) = None"

definition py_join :: "string \<Rightarrow> pyval list \<Rightarrow> error + string" where
  "py_join sep vs = (case strings_of vs of None \<Rightarrow> Inl TypeError | Some ss \<Rightarrow> Inr (join sep ss))"

definition run_action ::
  "(string \<Rightarrow> string list option) \<Rightarrow> (string list \<Rightarrow> error + (int \<times> string \<times> string)) \<Rightarrow>
   string \<Rightarrow> string \<Rightarrow> pyval list option \<Rightarrow> pyargs \<Rightarrow> kwargs \<Rightarrow>
   string list list \<Rightarrow> (error + row list) \<times> string list list"
where
  "run_action shlex_split shell cmdname command possibleargs args kwargs log =
     (case verify_args command possibleargs (candidates args kwargs) of
        Inl e \<Rightarrow> (Inl e, log)
      | Inr args' \<Rightarrow>
         (case (if args' = [] then Inr command
                else (case py_join '' '' (map (opt_of kwargs) args') of
                        Inl e \<Rightarrow> Inl e
                      | Inr s \<Rightarrow> Inr (command @ '' '' @ s))) of
            Inl e \<Rightarrow> (Inl e, log)
          | Inr cmd \<Rightarrow> nmcli shlex_split shell cmdname (Some cmd) None False log))"

text \<open>
  \<^verbatim>\<open>_NMCommand\<close>: the object name and the commands given to the constructor, each of
  which \<^verbatim>\<open>setattr\<close> binds to its \<^verbatim>\<open>run_action\<close> (a later binding of a name replaces an
  earlier one).  \<open>call\<close> is the call of an attribute, \<^verbatim>\<open>obj.name(args, **kwargs)\<close>.
\<close>

datatype NMCommand =
  NMCommand (cmdname: string) (commands: "(string \<times> pyval list option) list")

definition nm :: NMCommand where
  "nm = NMCommand ''nm''
                    [(''status'', None),
                     (''enable'', Some [PBool True, PBool False]),
                     (''sleep'', Some [PBool True, PBool False]),
                     (''wifi'', Some [PStr ''on'', PStr ''off'']),
                     (''wwan'', Some [PStr ''on'', PStr ''off''])]"

definition con :: NMCommand where
  "con = NMCommand ''con''
                     [(''list'', Some [PNone, PStr ''id'', PStr ''uuid'']),
                      (''status'', Some [PNone, PStr ''id'', PStr ''uuid'', PStr ''path'']),
                      (''up'', Some [PStr ''id'', PStr ''uuid'', PStr ''iface'', PStr ''ap'']),
                      (''down'', Some [PStr ''id'', PStr ''uuid'']),
                      (''delete'', Some [PStr ''id'', PStr ''uuid''])]"

definition dev :: NMCommand where
  "dev = NMCommand ''dev''
                     [(''status'', None),
                      (''list'', Some [PNone, PStr ''iface'']),
                      (''disconnect'', Some [PStr ''iface'']),
                      (''wifi'', Some [PStr ''list''])]"

definition call ::
  "(string \<Rightarrow> string list option) \<Rightarrow> (string list \<Rightarrow> error + (int \<times> string \<times> string)) \<Rightarrow>
   NMCommand \<Rightarrow> string \<Rightarrow> pyargs \<Rightarrow> kwargs \<Rightarrow>
   string list list \<Rightarrow> (error + row list) \<times> string list list"
where
  "call shlex_split shell obj name args kwargs log =
     (case map_of (rev (commands obj)) name of
        None \<Rightarrow> (Inl AttributeError, log)
      | Some possibleargs \<Rightarrow>
          run_action shlex_split shell (cmdname obj) name possibleargs args kwargs log)"

subsection \<open>Test doubles for the two library calls\<close>

text \<open>
  \<open>words\<close> splits a command of plain words at spaces, as \<^verbatim>\<open>shlex.split\<close> does on such a
  command; \<open>tool rc out err\<close> is an external tool that answers every invocation with the
  same exit code, output and error text.
\<close>

definition words :: "string \<Rightarrow> string list option" where
  "words s = Some (filter (\<lambda>w. w \<noteq> []) (split_on CHR '' '' s))"

definition tool :: "int \<Rightarrow> string \<Rightarrow> string \<Rightarrow> string list \<Rightarrow> error + (int \<times> string \<times> string)" where
  "tool rc out err args = Inr (rc, out, err)"

section \<open>Vocabulary of the statements\<close>

text \<open>
  Predicates and projections used to state the properties of the parser and of field
  resolution: whether a line has a colon, the part of a line before and after its first
  colon, the number of dots in the part before, the property name (what follows the
  first dot), one assignment of the multiline loop, and the field set a query resolves.
\<close>

definition has_colon :: "string \<Rightarrow> bool" where
  "has_colon line = (CHR '':'' \<in> set line)"

definition multikey_of :: "string \<Rightarrow> string" where
  "multikey_of line = takeWhile (\<lambda>c. c \<noteq> CHR '':'') line"

definition value_of :: "string \<Rightarrow> string" where
  "value_of line = tl (dropWhile (\<lambda>c. c \<noteq> CHR '':'') line)"

definition dots :: "string \<Rightarrow> nat" where
  "dots line = count_list (multikey_of line) CHR ''.''"

definition prop_of :: "string \<Rightarrow> string" where
  "prop_of line = tl (dropWhile (\<lambda>c. c \<noteq> CHR ''.'') (multikey_of line))"

definition assign :: "row \<Rightarrow> string \<Rightarrow> row" where
  "assign row line = row(prop_of line \<mapsto> value_of line)"

definition resolved_fields :: "string \<Rightarrow> string \<Rightarrow> string list option \<Rightarrow> bool \<Rightarrow> error + string list" where
  "resolved_fields obj cmd explicit multiline =
     (case build_fields ([obj, cmd] @ (case explicit of None \<Rightarrow> [] | Some fs \<Rightarrow> fs))
             explicit multiline of
        Inl e \<Rightarrow> Inl e
      | Inr (ns, fs, multiline') \<Rightarrow> Inr fs)"

section \<open>Properties of field resolution\<close>

lemma not_multiline_key: "Lst fs \<notin> set (map Str NMCLI_MULTILINE_KEYS)"
  by (simp add: NMCLI_MULTILINE_KEYS_def)

lemma build_fields_found:
  "map_of NMCLI_FIELDS (join '' '' ns) = Some fs \<Longrightarrow>
   build_fields ns fields multiline = Inr (ns, fs, multiline)"
  by (simp add: build_fields.simps not_multiline_key del: set_map)

lemma build_fields_pop:
  "map_of NMCLI_FIELDS (join '' '' ns) = None \<Longrightarrow> ns \<noteq> [] \<Longrightarrow>
   build_fields ns fields multiline = build_fields (butlast ns) fields multiline"
  by (subst build_fields.simps) simp

lemma build_fields_empty: "build_fields [] fields multiline = Inl IndexError"
  by (subst build_fields.simps) (simp add: NMCLI_FIELDS_def)

lemma distinct_keys: "distinct (map fst NMCLI_FIELDS)"
  by (simp add: NMCLI_FIELDS_def)

lemma keys: "map fst NMCLI_FIELDS = [''nm'', ''dev'', ''con'', ''con status'', ''con list id'']"
  by (simp add: NMCLI_FIELDS_def)

lemma len18: "length (the (map_of NMCLI_FIELDS ''con list id'')) = 18"
  by (simp add: NMCLI_FIELDS_def)

text \<open>
  Claim C1, as amended.  The table has exactly the five keys \<open>nm\<close>, \<open>dev\<close>, \<open>con\<close>,
  \<open>con status\<close> and \<open>con list id\<close>.  For every registered key, resolving a path whose
  join is exactly that key returns the path unchanged and that key's field set, for
  every value of the two other parameters; the field set of \<open>con list id\<close> has 18
  entries.  Nothing is stated about the flag that comes back with it.
\<close>

theorem resolve_registered_key:
  "((key, fs) \<in> set NMCLI_FIELDS \<and> join '' '' ns = key \<longrightarrow>
      (\<exists>multiline'. build_fields ns fields multiline = Inr (ns, fs, multiline')))
   \<and> map fst NMCLI_FIELDS = [''nm'', ''dev'', ''con'', ''con status'', ''con list id'']
   \<and> length (the (map_of NMCLI_FIELDS ''con list id'')) = 18"
proof -
  have "\<exists>multiline'. build_fields ns fields multiline = Inr (ns, fs, multiline')"
    if "(key, fs) \<in> set NMCLI_FIELDS" and "join '' '' ns = key"
  proof -
    from that(1) have "map_of NMCLI_FIELDS key = Some fs"
      by (rule map_of_is_SomeI [OF distinct_keys])
    with that(2) show ?thesis
      by (auto simp: build_fields_found)
  qed
  then show ?thesis
    using keys len18 by blast
qed

theorem resolve_registered_key_witness:
  "(''con list id'', the (map_of NMCLI_FIELDS ''con list id'')) \<in> set NMCLI_FIELDS
   \<and> join '' '' [''con'', ''list id''] = ''con list id''
   \<and> (\<exists>multiline'. build_fields [''con'', ''list id''] None False =
         Inr ([''con'', ''list id''], the (map_of NMCLI_FIELDS ''con list id''), multiline'))"
  using resolve_registered_key [of "''con list id''" "the (map_of NMCLI_FIELDS ''con list id'')"
      "[''con'', ''list id'']" None False]
  by (simp add: NMCLI_FIELDS_def)

text \<open>
  Claim C1 as first stated fails: the path \<open>con list id\<close> resolves to a field set of 18
  entries, not 17, and the flag returned is the one passed in (here \<open>False\<close>), although
  the key is in the multiline-key set; for \<open>nm\<close>, which is not, a flag \<open>True\<close> comes back
  \<open>True\<close>.
\<close>

theorem resolve_con_list_id_counterexample:
  "build_fields [''con'', ''list'', ''id''] None False =
     Inr ([''con'', ''list'', ''id''], the (map_of NMCLI_FIELDS ''con list id''), False)
   \<and> length (the (map_of NMCLI_FIELDS ''con list id'')) = 18
   \<and> ''con list id'' \<in> set NMCLI_MULTILINE_KEYS
   \<and> build_fields [''nm''] None True = Inr ([''nm''], the (map_of NMCLI_FIELDS ''nm''), True)
   \<and> ''nm'' \<notin> set NMCLI_MULTILINE_KEYS"
  by (simp add: build_fields.simps NMCLI_FIELDS_def NMCLI_MULTILINE_KEYS_def)

text \<open>
  Claim C2, as amended.  A path is the list that \<^verbatim>\<open>_nmcli\<close> builds: the object, the whole
  command string as one element, then the extra tokens.  When the first \<open>k\<close> elements of
  the path join to a registered key and no longer prefix does, resolution drops one
  trailing element at a time and returns that prefix with its field set.
\<close>

theorem resolve_nearest_ancestor:
  assumes "k \<le> length ns"
    and "map_of NMCLI_FIELDS (join '' '' (take k ns)) = Some fs"
    and "\<forall>j. k < j \<and> j \<le> length ns \<longrightarrow> map_of NMCLI_FIELDS (join '' '' (take j ns)) = None"
  shows "build_fields ns fields multiline = Inr (take k ns, fs, multiline)"
  using assms
proof (induction ns fields multiline rule: build_fields.induct)
  case (1 ns fields multiline)
  show ?case
  proof (cases "k = length ns")
    case True
    with "1.prems" show ?thesis by (simp add: build_fields_found)
  next
    case False
    with "1.prems" have lt: "k < length ns" by simp
    with "1.prems" have none: "map_of NMCLI_FIELDS (join '' '' ns) = None" 
      by (metis order_refl take_all)
    from lt have ne: "ns \<noteq> []" by auto
    have tk: "take j (butlast ns) = take j ns" if "j \<le> length ns - 1" for j
      using that by (simp add: take_butlast butlast_conv_take)
    have "build_fields (butlast ns) fields multiline = Inr (take k (butlast ns), fs, multiline)"
    proof (rule "1.IH" [OF none ne])
      show "k \<le> length (butlast ns)" using lt by simp
      show "map_of NMCLI_FIELDS (join '' '' (take k (butlast ns))) = Some fs"
        using lt "1.prems"(2) by (simp add: tk)
      show "\<forall>j. k < j \<and> j \<le> length (butlast ns) \<longrightarrow>
              map_of NMCLI_FIELDS (join '' '' (take j (butlast ns))) = None"
        using "1.prems"(3) by (auto simp: tk)
    qed
    with lt show ?thesis
      by (simp add: build_fields_pop [OF none ne] tk)
  qed
qed

theorem resolve_nearest_ancestor_witness:
  "build_fields [''con'', ''status'', ''id'', ''x''] None False =
     Inr ([''con'', ''status''],
          [''NAME'', ''UUID'', ''DEVICES'', ''DEFAULT'', ''VPN'', ''MASTER-PATH''], False)"
proof -
  let ?ns = "[''con'', ''status'', ''id'', ''x'']"
  have le: "2 \<le> length ?ns" by simp
  have found: "map_of NMCLI_FIELDS (join '' '' (take 2 ?ns)) =
      Some [''NAME'', ''UUID'', ''DEVICES'', ''DEFAULT'', ''VPN'', ''MASTER-PATH'']"
    by (simp add: NMCLI_FIELDS_def)
  have longer: "\<forall>j. 2 < j \<and> j \<le> length ?ns \<longrightarrow> map_of NMCLI_FIELDS (join '' '' (take j ?ns)) = None"
  proof (intro allI impI)
    fix j assume "2 < j \<and> j \<le> length ?ns"
    then have "j = 3 \<or> j = 4" by auto
    then show "map_of NMCLI_FIELDS (join '' '' (take j ?ns)) = None"
      by (auto simp: NMCLI_FIELDS_def)
  qed
  show ?thesis
    using resolve_nearest_ancestor [OF le found longer, of None False] by simp
qed

text \<open>
  Claim C2 as first stated fails: in the query on \<open>con\<close> with the command \<open>status id x\<close>
  the command is one element of the path, so the first pop leaves \<open>con\<close>, whose field set
  is requested from the tool; \<^verbatim>\<open>con.status(id='x')\<close> is such a query.
\<close>

theorem command_string_counterexample:
  "build_fields [''con'', ''status id x''] None False =
     Inr ([''con''], [''NAME'', ''UUID'', ''TYPE'', ''TIMESTAMP-REAL''], False)
   \<and> snd (nmcli words (tool 0 [] []) ''con'' (Some ''status id x'') None False []) =
       [[''nmcli'', ''--terse'', ''--fields'', ''NAME,UUID,TYPE,TIMESTAMP-REAL'',
         ''con'', ''status'', ''id'', ''x'']]
   \<and> snd (call words (tool 0 [] []) con ''status'' (Scalar PNone) [(''id'', PStr ''x'')] []) =
       [[''nmcli'', ''--terse'', ''--fields'', ''NAME,UUID,TYPE,TIMESTAMP-REAL'',
         ''con'', ''status'', ''id'', ''x'']]"
proof -
  have b: "build_fields [''con'', ''status id x''] None False =
     Inr ([''con''], [''NAME'', ''UUID'', ''TYPE'', ''TIMESTAMP-REAL''], False)"
    by (simp add: build_fields.simps NMCLI_FIELDS_def NMCLI_MULTILINE_KEYS_def)
  have q: "snd (nmcli words (tool 0 [] []) ''con'' (Some ''status id x'') None False []) =
       [[''nmcli'', ''--terse'', ''--fields'', ''NAME,UUID,TYPE,TIMESTAMP-REAL'',
         ''con'', ''status'', ''id'', ''x'']]"
    by (simp add: nmcli_def b words_def tool_def)
  have "call words (tool 0 [] []) con ''status'' (Scalar PNone) [(''id'', PStr ''x'')] [] =
        nmcli words (tool 0 [] []) ''con'' (Some ''status id x'') None False []"
    by (simp add: call_def con_def run_action_def candidates_def verify_arg_def py_not_in_def
        usableargs_def sanitize_args_def opt_of_def py_join_def lower_def lower_char_def)
  with b q show ?thesis by simp
qed

section \<open>Properties of the output parser\<close>

lemma split_on_ne: "split_on sep s \<noteq> []"
  by (induction s) (auto split: list.splits)

lemma length_split_on: "length (split_on sep s) = Suc (count_list s sep)"
  by (induction s) (auto simp: split_on_ne split: list.splits)

lemma split_on_no_sep: "sep \<notin> set s \<Longrightarrow> split_on sep s = [s]"
  by (induction s) (auto split: list.splits)

lemma split_on_one:
  "count_list s sep = 1 \<Longrightarrow>
   split_on sep s = [takeWhile (\<lambda>c. c \<noteq> sep) s, tl (dropWhile (\<lambda>c. c \<noteq> sep) s)]"
proof (induction s)
  case Nil
  then show ?case by simp
next
  case (Cons c cs)
  show ?case
  proof (cases "c = sep")
    case True
    with Cons.prems have "sep \<notin> set cs" by (simp add: count_list_0_iff)
    with True show ?thesis by (simp add: split_on_no_sep)
  next
    case False
    with Cons show ?thesis by simp
  qed
qed

lemma loop_skip:
  "\<not> has_colon line \<Longrightarrow> multiline_loop (line # lines) row = multiline_loop lines row"
  by (simp add: has_colon_def split_first_def)

lemma loop_assign:
  "has_colon line \<Longrightarrow> dots line = 1 \<Longrightarrow>
   multiline_loop (line # lines) row = multiline_loop lines (assign row line)"
  by (simp add: has_colon_def split_first_def dots_def multikey_of_def split_on_one
      assign_def prop_of_def value_of_def)

lemma loop_raise:
  assumes "has_colon line" and "dots line \<noteq> 1"
  shows "multiline_loop (line # lines) row = Inl ValueError"
proof -
  have "length (split_on CHR ''.'' (multikey_of line)) \<noteq> 2"
    using assms(2) by (simp add: length_split_on dots_def)
  then show ?thesis
    using assms(1)
    by (auto simp: has_colon_def split_first_def multikey_of_def split: list.splits)
qed

lemma loop_filter: "multiline_loop lines row = multiline_loop (filter has_colon lines) row"
proof (induction lines arbitrary: row)
  case Nil
  show ?case by simp
next
  case (Cons line lines)
  show ?case
  proof (cases "has_colon line")
    case False
    then show ?thesis using Cons by (simp add: loop_skip del: multiline_loop.simps)
  next
    case True
    show ?thesis
    proof (cases "dots line = 1")
      case True
      with \<open>has_colon line\<close> show ?thesis
        using Cons by (simp add: loop_assign del: multiline_loop.simps)
    next
      case False
      with \<open>has_colon line\<close> show ?thesis
        by (simp add: loop_raise del: multiline_loop.simps)
    qed
  qed
qed

lemma loop_well_formed:
  "\<forall>line \<in> set lines. has_colon line \<longrightarrow> dots line = 1 \<Longrightarrow>
   multiline_loop lines row = Inr (foldl assign row (filter has_colon lines))"
proof (induction lines arbitrary: row)
  case Nil
  show ?case by simp
next
  case (Cons line lines)
  then show ?case
    by (cases "has_colon line") (simp_all add: loop_skip loop_assign del: multiline_loop.simps)
qed

lemma loop_malformed:
  "\<exists>line \<in> set lines. has_colon line \<and> dots line \<noteq> 1 \<Longrightarrow>
   multiline_loop lines row = Inl ValueError"
proof (induction lines arbitrary: row)
  case Nil
  then show ?case by simp
next
  case (Cons line lines)
  show ?case
  proof (cases "has_colon line")
    case False
    with Cons show ?thesis by (auto simp: loop_skip simp del: multiline_loop.simps)
  next
    case True
    show ?thesis
    proof (cases "dots line = 1")
      case False
      with True show ?thesis by (simp add: loop_raise del: multiline_loop.simps)
    next
      case d: True
      with True Cons.prems have "\<exists>l \<in> set lines. has_colon l \<and> dots l \<noteq> 1" by auto
      with True d Cons.IH show ?thesis by (simp add: loop_assign del: multiline_loop.simps)
    qed
  qed
qed

lemma dict_snoc: "dict (kvs @ [(k, v)]) = (dict kvs)(k \<mapsto> v)"
  by (simp add: dict_def)

lemma dict_map_of: "dict kvs = map_of (rev kvs)"
  by (induction kvs rule: rev_induct) (auto simp: dict_snoc, simp add: dict_def)

lemma map_of_rev_distinct: "distinct (map fst kvs) \<Longrightarrow> map_of (rev kvs) = map_of kvs"
proof (induction kvs)
  case Nil
  show ?case by simp
next
  case (Cons kv kvs)
  obtain k v where kv: "kv = (k, v)" by (cases kv)
  from Cons.prems kv have "map_of kvs k = None"
    by (simp add: map_of_eq_None_iff)
  with Cons kv show ?case
    by (auto simp: fun_eq_iff map_add_def split: option.splits)
qed

lemma dict_zip_nth:
  "distinct fs \<Longrightarrow> length vals = length fs \<Longrightarrow> i < length fs \<Longrightarrow>
   dict (zip fs vals) (fs ! i) = Some (vals ! i)"
  by (simp add: dict_map_of map_of_rev_distinct map_of_zip_nth)

lemma dom_dict_zip: "length vals = length fs \<Longrightarrow> dom (dict (zip fs vals)) = set fs"
proof -
  assume len: "length vals = length fs"
  have "dom (dict (zip fs vals)) = set (map fst (zip fs vals))"
    by (simp add: dict_map_of dom_map_of_conv_image_fst)
  also have "map fst (zip fs vals) = fs"
    using len by simp
  finally show ?thesis .
qed

lemma foldl_assign_dict:
  "foldl assign Map.empty ls = dict (map (\<lambda>l. (prop_of l, value_of l)) ls)"
  by (induction ls rule: rev_induct) (simp_all add: dict_snoc assign_def, simp add: dict_def)

lemma single_loop_eq:
  "single_loop fs lines data =
   data @ map (\<lambda>vals. dict (zip fs vals))
     (filter (\<lambda>vals. length vals = length fs) (map (split_on CHR '':'') lines))"
  by (induction lines arbitrary: data) (simp_all add: Let_def)

lemma dict_last: "k \<notin> fst ` set post \<Longrightarrow> dict (pre @ (k, v) # post) k = Some v"
proof -
  assume "k \<notin> fst ` set post"
  then have "map_of (rev post) k = None"
    by (simp add: map_of_eq_None_iff)
  then show ?thesis
    by (simp add: dict_map_of map_add_def)
qed

lemma parse_multiline:
  "parse stdout fs True =
     (case multiline_loop (split_on CHR 0x0A stdout) Map.empty of
        Inl e \<Rightarrow> Inl e | Inr row \<Rightarrow> Inr [row])"
  by (simp add: parse_def split: sum.splits)

text \<open>
  Claim C3, as amended.  In multiline mode the lines without a colon are skipped: the
  result is that of the loop over the lines that have one.  When every line with a colon
  has exactly one dot before its first colon, parsing ends normally with a one-record
  sequence.  A line with a colon and no dot (or several) before it is not skipped: the
  parse raises \<^verbatim>\<open>ValueError\<close> and returns no record.
\<close>

theorem multiline_colonless_skipped_dotless_raises:
  "parse stdout fs True =
     (case multiline_loop (filter has_colon (split_on CHR 0x0A stdout)) Map.empty of
        Inl e \<Rightarrow> Inl e | Inr row \<Rightarrow> Inr [row])
   \<and> ((\<forall>line \<in> set (split_on CHR 0x0A stdout). has_colon line \<longrightarrow> dots line = 1) \<longrightarrow>
        (\<exists>row. parse stdout fs True = Inr [row]))
   \<and> ((\<exists>line \<in> set (split_on CHR 0x0A stdout). has_colon line \<and> dots line \<noteq> 1) \<longrightarrow>
        parse stdout fs True = Inl ValueError)"
proof (intro conjI impI)
  show "parse stdout fs True =
     (case multiline_loop (filter has_colon (split_on CHR 0x0A stdout)) Map.empty of
        Inl e \<Rightarrow> Inl e | Inr row \<Rightarrow> Inr [row])"
    unfolding parse_multiline by (subst loop_filter) (rule refl)
next
  assume "\<forall>line \<in> set (split_on CHR 0x0A stdout). has_colon line \<longrightarrow> dots line = 1"
  then show "\<exists>row. parse stdout fs True = Inr [row]"
    by (simp add: parse_multiline loop_well_formed)
next
  assume "\<exists>line \<in> set (split_on CHR 0x0A stdout). has_colon line \<and> dots line \<noteq> 1"
  then show "parse stdout fs True = Inl ValueError"
    by (simp add: parse_multiline loop_malformed)
qed

theorem multiline_colonless_skipped_dotless_raises_witness:
  "parse (''connection.id:home'' @ [CHR 0x0A] @ ''no colon here'') [] True
        = Inr [[''id'' \<mapsto> ''home'']]
   \<and> (\<exists>line \<in> set (split_on CHR 0x0A (''connection.id:home'' @ [CHR 0x0A] @ ''state:up'')).
        has_colon line \<and> dots line \<noteq> 1)
   \<and> parse (''connection.id:home'' @ [CHR 0x0A] @ ''state:up'') [] True = Inl ValueError"
  using multiline_colonless_skipped_dotless_raises
          [of "''connection.id:home'' @ [CHR 0x0A] @ ''no colon here''" "[]"]
        multiline_colonless_skipped_dotless_raises
          [of "''connection.id:home'' @ [CHR 0x0A] @ ''state:up''" "[]"]
  by (simp add: has_colon_def dots_def multikey_of_def split_first_def)

text \<open>
  Claim C3 as first stated fails: the line \<open>state:up\<close> has a colon and no dot before it,
  and the parse raises instead of skipping it.
\<close>

theorem multiline_dotless_counterexample:
  "parse (''connection.id:home'' @ [CHR 0x0A] @ ''state:up'' @ [CHR 0x0A]) [] True
     = Inl ValueError"
  by (simp add: parse_def split_first_def)

text \<open>
  Claim C8, as amended.  In multiline mode, when every line with a colon has exactly one
  dot before its first colon, parsing returns exactly one record: the dictionary of the
  pairs (property name, text after the first colon) of the lines with a colon, in order.
  In it a property name is bound to the value of the last line that assigns it, whatever
  the section names before the dots.
\<close>

theorem multiline_one_record:
  "(\<forall>line \<in> set (split_on CHR 0x0A stdout). has_colon line \<longrightarrow> dots line = 1) \<longrightarrow>
     parse stdout fs True =
       Inr [dict (map (\<lambda>line. (prop_of line, value_of line))
                   (filter has_colon (split_on CHR 0x0A stdout)))]
     \<and> (\<forall>pre line post.
          filter has_colon (split_on CHR 0x0A stdout) = pre @ line # post
          \<and> (\<forall>later \<in> set post. prop_of later \<noteq> prop_of line) \<longrightarrow>
          dict (map (\<lambda>line. (prop_of line, value_of line))
                  (filter has_colon (split_on CHR 0x0A stdout))) (prop_of line)
            = Some (value_of line))"
proof (intro impI conjI allI)
  assume "\<forall>line \<in> set (split_on CHR 0x0A stdout). has_colon line \<longrightarrow> dots line = 1"
  then show "parse stdout fs True =
       Inr [dict (map (\<lambda>line. (prop_of line, value_of line))
                   (filter has_colon (split_on CHR 0x0A stdout)))]"
    by (simp add: parse_multiline loop_well_formed foldl_assign_dict)
next
  fix pre line post
  assume "filter has_colon (split_on CHR 0x0A stdout) = pre @ line # post
          \<and> (\<forall>later \<in> set post. prop_of later \<noteq> prop_of line)"
  then show "dict (map (\<lambda>line. (prop_of line, value_of line))
                  (filter has_colon (split_on CHR 0x0A stdout))) (prop_of line)
            = Some (value_of line)"
  proof -
    assume a: "filter has_colon (split_on CHR 0x0A stdout) = pre @ line # post
          \<and> (\<forall>later \<in> set post. prop_of later \<noteq> prop_of line)"
    then have "prop_of line \<notin> fst ` set (map (\<lambda>line. (prop_of line, value_of line)) post)"
      by force
    then have "dict (map (\<lambda>line. (prop_of line, value_of line)) pre
                 @ (prop_of line, value_of line) # map (\<lambda>line. (prop_of line, value_of line)) post)
                (prop_of line) = Some (value_of line)"
      by (rule dict_last)
    with a show ?thesis by simp
  qed
qed

theorem multiline_one_record_witness:
  "parse (''connection.id:home'' @ [CHR 0x0A] @ ''ipv4.addr:192.168.1.2'' @ [CHR 0x0A]) [] True
     = Inr [[''id'' \<mapsto> ''home'', ''addr'' \<mapsto> ''192.168.1.2'']]
   \<and> parse (''connection.id:home'' @ [CHR 0x0A] @ ''vpn.id:work'') [] True
     = Inr [[''id'' \<mapsto> ''work'']]
   \<and> parse [] [] True = Inr [Map.empty]"
  using multiline_one_record
          [of "''connection.id:home'' @ [CHR 0x0A] @ ''ipv4.addr:192.168.1.2'' @ [CHR 0x0A]" "[]"]
        multiline_one_record [of "''connection.id:home'' @ [CHR 0x0A] @ ''vpn.id:work''" "[]"]
        multiline_one_record [of "[]" "[]"]
  by (simp add: has_colon_def dots_def multikey_of_def prop_of_def value_of_def dict_def)

text \<open>
  Claim C8 as first stated fails: on a line with two dots before the colon the parse
  raises and returns no record.
\<close>

theorem multiline_two_dots_counterexample:
  "parse ''ipv4.dns.search:lan'' [] True = Inl ValueError"
  by (simp add: parse_def split_first_def)

text \<open>
  Claim C7.  In single-line mode the records are, in order, the zips of the field names
  with the columns of each line whose number of colon-separated columns is the number of
  fields; every other line gives no record.  With distinct field names such a record has
  exactly the field names as keys and maps the i-th name to the i-th column.
\<close>

theorem single_line_parse:
  "parse stdout fs False =
     Inr (map (\<lambda>vals. dict (zip fs vals))
            (filter (\<lambda>vals. length vals = length fs)
               (map (split_on CHR '':'') (split_on CHR 0x0A stdout))))
   \<and> (distinct fs \<and> length vals = length fs \<longrightarrow>
        dom (dict (zip fs vals)) = set fs
        \<and> (\<forall>i < length fs. dict (zip fs vals) (fs ! i) = Some (vals ! i)))"
  by (simp add: parse_def single_loop_eq dom_dict_zip dict_zip_nth)

theorem single_line_parse_witness:
  "parse (''1:2:3'' @ [CHR 0x0A] @ ''4:5:6'' @ [CHR 0x0A]) [''A'', ''B'', ''C''] False =
     Inr [[''A'' \<mapsto> ''1'', ''B'' \<mapsto> ''2'', ''C'' \<mapsto> ''3''],
          [''A'' \<mapsto> ''4'', ''B'' \<mapsto> ''5'', ''C'' \<mapsto> ''6'']]
   \<and> parse (''1:2'' @ [CHR 0x0A]) [''A'', ''B'', ''C''] False = Inr []
   \<and> dom (dict (zip [''A'', ''B'', ''C''] [''1'', ''2'', ''3''])) = {''A'', ''B'', ''C''}
   \<and> dict (zip [''A'', ''B'', ''C''] [''1'', ''2'', ''3'']) ''B'' = Some ''2''"
  using single_line_parse [of "''1:2:3'' @ [CHR 0x0A] @ ''4:5:6'' @ [CHR 0x0A]"
          "[''A'', ''B'', ''C'']" "[''1'', ''2'', ''3'']"]
        single_line_parse [of "''1:2'' @ [CHR 0x0A]" "[''A'', ''B'', ''C'']" "[]"]
  by (simp add: dict_def)

section \<open>Properties of validation and normalization\<close>

lemma verify_arg_Some:
  "verify_arg command (Some allowed) t =
     (if sanitize_arg t \<notin> set (sanitize_args allowed)
      then Inl (Exception (invalid_msg (sanitize_arg t) command (Some allowed)))
      else Inr (sanitize_arg t))"
  by (simp add: verify_arg_def py_not_in_def usableargs_def Let_def)

lemma verify_arg_None: "verify_arg command None t = Inl TypeError"
  by (simp add: verify_arg_def py_not_in_def usableargs_def)

lemma verify_args_None:
  "cands \<noteq> [] \<Longrightarrow> verify_args command None cands = Inl TypeError"
  by (cases cands) (simp_all add: verify_arg_None)

lemma verify_args_ok:
  "\<forall>t \<in> set cands. sanitize_arg t \<in> set (sanitize_args allowed) \<Longrightarrow>
   verify_args command (Some allowed) cands = Inr (map sanitize_arg cands)"
  by (induction cands) (simp_all add: verify_arg_Some)


lemma verify_args_result:
  "verify_args command possibleargs cands = Inr vs \<Longrightarrow> vs = map sanitize_arg cands"
proof (induction cands arbitrary: vs)
  case Nil
  then show ?case by simp
next
  case (Cons t cands)
  then show ?case
    by (cases possibleargs)
       (auto simp: verify_arg_None verify_arg_Some split: sum.splits if_splits)
qed






lemma digit_val_digit: "d < 10 \<Longrightarrow> digit_val (digit d) = d"
proof -
  assume "d < 10"
  then have "d = 0 \<or> d = 1 \<or> d = 2 \<or> d = 3 \<or> d = 4 \<or> d = 5 \<or> d = 6 \<or> d = 7 \<or> d = 8 \<or> d = 9"
    by arith
  then show ?thesis
    by (elim disjE) (simp_all add: digit_def digit_val_def)
qed

lemma digit_not_minus: "d < 10 \<Longrightarrow> digit d \<noteq> CHR ''-''"
proof -
  assume "d < 10"
  then have "d = 0 \<or> d = 1 \<or> d = 2 \<or> d = 3 \<or> d = 4 \<or> d = 5 \<or> d = 6 \<or> d = 7 \<or> d = 8 \<or> d = 9"
    by arith
  then show ?thesis
    by (elim disjE) (simp_all add: digit_def)
qed

lemma dec_val_snoc: "dec_val (s @ [c]) = 10 * dec_val s + digit_val c"
  by (simp add: dec_val_def)

lemma dec_val_str_nat: "dec_val (str_nat n) = n"
proof (induction n rule: str_nat.induct)
  case (1 n)
  show ?case
  proof (cases "n < 10")
    case True
    then show ?thesis
      by (subst str_nat.simps) (simp add: dec_val_def digit_val_digit)
  next
    case False
    with "1.IH" have "dec_val (str_nat (n div 10)) = n div 10" by simp
    with False show ?thesis
      by (subst str_nat.simps) (simp add: dec_val_snoc digit_val_digit)
  qed
qed

lemma str_nat_hd: "\<exists>c cs. str_nat n = c # cs \<and> c \<noteq> CHR ''-''"
proof (induction n rule: str_nat.induct)
  case (1 n)
  show ?case
  proof (cases "n < 10")
    case True
    then show ?thesis
      by (subst str_nat.simps) (simp add: digit_not_minus)
  next
    case False
    with "1.IH" obtain c cs where "str_nat (n div 10) = c # cs" and "c \<noteq> CHR ''-''" by auto
    with False show ?thesis
      by (subst str_nat.simps) simp
  qed
qed

lemma dec_int_str_int: "dec_int (str_int i) = i"
proof (cases "i < 0")
  case True
  then show ?thesis
    by (simp add: dec_int_def str_int_def dec_val_str_nat)
next
  case False
  obtain c cs where s: "str_nat (nat i) = c # cs" and c: "c \<noteq> CHR ''-''"
    using str_nat_hd by blast
  have "dec_val (str_nat (nat i)) = nat i" by (rule dec_val_str_nat)
  with False s c show ?thesis
    by (simp add: dec_int_def str_int_def)
qed

lemma lower_char_code:
  "(of_char (lower_char c) :: nat) = (if is_upper c then of_char c + 32 else of_char c)"
  by (auto simp: lower_char_def is_upper_def)

lemma lower_nth:
  "j < length s \<Longrightarrow>
   (of_char (lower s ! j) :: nat) = (if is_upper (s ! j) then of_char (s ! j) + 32 else of_char (s ! j))"
  by (simp add: lower_def lower_char_code)

lemma candidates_empty:
  "candidates args kwargs = [] \<longleftrightarrow> (args = Scalar PNone \<or> args = ListOf []) \<and> kwargs = []"
  by (auto simp: candidates_def split: pyargs.splits pyval.splits)

text \<open>
  Claim C5, as amended.  \<^verbatim>\<open>nm.status\<close> and \<^verbatim>\<open>dev.status\<close> are registered with \<^verbatim>\<open>None\<close>.
  For a command registered with \<^verbatim>\<open>None\<close>, a call with any candidate token at all (a
  positional value, an element of a positional list, even \<^verbatim>\<open>None\<close> inside a list, or a
  keyword) raises \<^verbatim>\<open>TypeError\<close>, from the membership test on \<^verbatim>\<open>None\<close>, before any
  invocation; a call with no candidate token (no positional argument or \<^verbatim>\<open>None\<close> or the
  empty list, and no keyword) passes validation and is the query of the bare command.
\<close>

theorem null_allowed_set_rejects_every_token:
  "map_of (rev (commands nm)) ''status'' = Some None
   \<and> map_of (rev (commands dev)) ''status'' = Some None
   \<and> (map_of (rev (commands obj)) name = Some None \<and> candidates args kwargs \<noteq> [] \<longrightarrow>
        call shlex_split shell obj name args kwargs log = (Inl TypeError, log))
   \<and> (map_of (rev (commands obj)) name = Some None \<and> candidates args kwargs = [] \<longrightarrow>
        call shlex_split shell obj name args kwargs log =
          nmcli shlex_split shell (cmdname obj) (Some name) None False log)
   \<and> (candidates args kwargs = [] \<longleftrightarrow>
        (args = Scalar PNone \<or> args = ListOf []) \<and> kwargs = [])"
proof (intro conjI impI)
  show "map_of (rev (commands nm)) ''status'' = Some None" by (simp add: nm_def)
  show "map_of (rev (commands dev)) ''status'' = Some None" by (simp add: dev_def)
  show "call shlex_split shell obj name args kwargs log = (Inl TypeError, log)"
    if "map_of (rev (commands obj)) name = Some None \<and> candidates args kwargs \<noteq> []"
    using that by (simp add: call_def run_action_def verify_args_None)
  show "call shlex_split shell obj name args kwargs log =
          nmcli shlex_split shell (cmdname obj) (Some name) None False log"
    if "map_of (rev (commands obj)) name = Some None \<and> candidates args kwargs = []"
    using that by (simp add: call_def run_action_def)
  show "candidates args kwargs = [] \<longleftrightarrow>
        (args = Scalar PNone \<or> args = ListOf []) \<and> kwargs = []"
    by (rule candidates_empty)
qed

theorem null_allowed_set_rejects_every_token_witness:
  "map_of (rev (commands nm)) ''status'' = Some None
   \<and> candidates (Scalar (PStr ''x'')) [] \<noteq> []
   \<and> call words (tool 0 [] []) nm ''status'' (Scalar (PStr ''x'')) [] [] = (Inl TypeError, [])
   \<and> candidates (ListOf [PNone]) [] \<noteq> []
   \<and> call words (tool 0 [] []) dev ''status'' (ListOf [PNone]) [] [] = (Inl TypeError, [])
   \<and> candidates (Scalar PNone) [] = []
   \<and> call words (tool 0 ''eth0:802-3-ethernet:connected'' []) dev ''status'' (Scalar PNone) [] [] =
       (Inr [[''DEVICE'' \<mapsto> ''eth0'', ''TYPE'' \<mapsto> ''802-3-ethernet'', ''STATE'' \<mapsto> ''connected'']],
        [[''nmcli'', ''--terse'', ''--fields'', ''DEVICE,TYPE,STATE'', ''dev'', ''status'']])"
proof -
  have q: "nmcli words (tool 0 ''eth0:802-3-ethernet:connected'' []) ''dev'' (Some ''status'') None False [] =
       (Inr [[''DEVICE'' \<mapsto> ''eth0'', ''TYPE'' \<mapsto> ''802-3-ethernet'', ''STATE'' \<mapsto> ''connected'']],
        [[''nmcli'', ''--terse'', ''--fields'', ''DEVICE,TYPE,STATE'', ''dev'', ''status'']])"
    by (simp add: nmcli_def build_fields.simps NMCLI_FIELDS_def NMCLI_MULTILINE_KEYS_def
        words_def tool_def parse_def dict_def)
  show ?thesis
    using null_allowed_set_rejects_every_token
            [of nm "''status''" "Scalar (PStr ''x'')" "[]" words "tool 0 [] []" "[]"]
          null_allowed_set_rejects_every_token
            [of dev "''status''" "ListOf [PNone]" "[]" words "tool 0 [] []" "[]"]
          null_allowed_set_rejects_every_token
            [of dev "''status''" "Scalar PNone" "[]" words
               "tool 0 ''eth0:802-3-ethernet:connected'' []" "[]"]
    by (simp add: candidates_def q dev_def)
qed

text \<open>
  Claim C5 as first stated fails: \<^verbatim>\<open>dev.status('wlan0')\<close> raises \<^verbatim>\<open>TypeError\<close>, not the
  exception with the argument-validation message.
\<close>

theorem null_allowed_set_type_error_counterexample:
  "call words (tool 0 [] []) dev ''status'' (Scalar (PStr ''wlan0'')) [] [] = (Inl TypeError, [])
   \<and> TypeError \<noteq> Exception (invalid_msg (PStr ''wlan0'') ''status'' None)"
  by (simp add: call_def dev_def run_action_def candidates_def verify_arg_None)

text \<open>
  Claim C6, as amended.  Normalization maps \<^verbatim>\<open>True\<close> and \<^verbatim>\<open>False\<close> to \<open>true\<close> and
  \<open>false\<close>, an integer to its decimal numeral (which reads back as that integer), a
  string to the string of the same length with each ASCII capital moved 32 codes up and
  every other character kept, and \<^verbatim>\<open>None\<close> to itself.  It is applied to every entry of
  the allowed set and to every candidate token; the candidate tokens are the positional
  tokens followed by the keyword names, so keyword names are normalized too.  The value
  of a keyword is normalized where it is emitted, after the token that is its name.
\<close>

theorem normalization_of_tokens:
  "sanitize_arg (PBool True) = PStr ''true''
   \<and> sanitize_arg (PBool False) = PStr ''false''
   \<and> sanitize_arg (PInt i) = PStr (str_int i) \<and> dec_int (str_int i) = i
   \<and> sanitize_arg (PStr s) = PStr (lower s) \<and> length (lower s) = length s
   \<and> (\<forall>j < length s. (of_char (lower s ! j) :: nat) =
         (if is_upper (s ! j) then of_char (s ! j) + 32 else of_char (s ! j)))
   \<and> sanitize_arg PNone = PNone
   \<and> usableargs (Some allowed) = Some (map sanitize_arg allowed)
   \<and> candidates (ListOf positional) kwargs = positional @ map PStr (map fst kwargs)
   \<and> (verify_args command possibleargs (candidates args kwargs) = Inr vs \<longrightarrow>
        vs = map sanitize_arg (candidates args kwargs))
   \<and> (map_of kwargs k = Some v \<longrightarrow>
        opt_of kwargs (PStr k) = PStr (k @ '' '' @ py_str (sanitize_arg v)))"
proof (intro conjI impI allI)
  show "sanitize_arg (PBool True) = PStr ''true''"
    by (simp add: lower_def lower_char_def)
  show "sanitize_arg (PBool False) = PStr ''false''"
    by (simp add: lower_def lower_char_def)
  show "sanitize_arg (PInt i) = PStr (str_int i)" by simp
  show "dec_int (str_int i) = i" by (rule dec_int_str_int)
  show "sanitize_arg (PStr s) = PStr (lower s)" by simp
  show "length (lower s) = length s" by (simp add: lower_def)
  show "(of_char (lower s ! j) :: nat) =
         (if is_upper (s ! j) then of_char (s ! j) + 32 else of_char (s ! j))"
    if "j < length s" for j using that by (rule lower_nth)
  show "sanitize_arg PNone = PNone" by simp
  show "usableargs (Some allowed) = Some (map sanitize_arg allowed)"
    by (simp add: usableargs_def sanitize_args_def)
  show "candidates (ListOf positional) kwargs = positional @ map PStr (map fst kwargs)"
    by (auto simp: candidates_def split_def)
  show "vs = map sanitize_arg (candidates args kwargs)"
    if "verify_args command possibleargs (candidates args kwargs) = Inr vs"
    using that by (rule verify_args_result)
  show "opt_of kwargs (PStr k) = PStr (k @ '' '' @ py_str (sanitize_arg v))"
    if "map_of kwargs k = Some v"
    using that by (simp add: opt_of_def)
qed

theorem normalization_of_tokens_witness:
  "sanitize_arg (PInt 8302) = PStr ''8302''
   \<and> dec_int ''8302'' = 8302
   \<and> sanitize_arg (PStr ''Eth0'') = PStr ''eth0''
   \<and> (0 :: nat) < length ''Eth0''
   \<and> (of_char (lower ''Eth0'' ! 0) :: nat) = of_char (''Eth0'' ! 0) + 32
   \<and> verify_args ''up'' (Some [PStr ''id'', PStr ''uuid'', PStr ''iface'', PStr ''ap''])
        (candidates (ListOf [PStr ''IFACE'']) [(''id'', PStr ''Eth0'')]) =
        Inr [PStr ''iface'', PStr ''id'']
   \<and> map_of [(''id'', PStr ''Eth0'')] ''id'' = Some (PStr ''Eth0'')
   \<and> opt_of [(''id'', PStr ''Eth0'')] (PStr ''id'') = PStr ''id eth0''"
proof -
  note n = normalization_of_tokens [of 8302 "''Eth0''" "[]" "[PStr ''IFACE'']"
            "[(''id'', PStr ''Eth0'')]" "''up''"
            "Some [PStr ''id'', PStr ''uuid'', PStr ''iface'', PStr ''ap'']"
            "ListOf [PStr ''IFACE'']" "[PStr ''iface'', PStr ''id'']" "''id''" "PStr ''Eth0''"]
  have "str_nat 8302 = ''8302''"
    by (subst str_nat.simps, simp add: digit_def)+
  then have i: "str_int 8302 = ''8302''"
    by (simp add: str_int_def)
  have low: "lower ''Eth0'' = ''eth0''"
    by (simp add: lower_def lower_char_def)
  have up: "is_upper (''Eth0'' ! 0)"
    by (simp add: is_upper_def)
  have v: "verify_args ''up'' (Some [PStr ''id'', PStr ''uuid'', PStr ''iface'', PStr ''ap''])
        (candidates (ListOf [PStr ''IFACE'']) [(''id'', PStr ''Eth0'')]) =
        Inr [PStr ''iface'', PStr ''id'']"
    by (simp add: candidates_def verify_arg_Some sanitize_args_def lower_def lower_char_def)
  have m: "map_of [(''id'', PStr ''Eth0'')] ''id'' = Some (PStr ''Eth0'')"
    by simp
  from n have c1: "sanitize_arg (PInt 8302) = PStr (str_int 8302)" by (elim conjE)
  from n have c2: "dec_int (str_int 8302) = 8302" by (elim conjE)
  from n have c3: "sanitize_arg (PStr ''Eth0'') = PStr (lower ''Eth0'')" by (elim conjE)
  from n have c4: "\<forall>j < length ''Eth0''. (of_char (lower ''Eth0'' ! j) :: nat) =
         (if is_upper (''Eth0'' ! j) then of_char (''Eth0'' ! j) + 32 else of_char (''Eth0'' ! j))"
    by (elim conjE)
  from n have c5: "map_of [(''id'', PStr ''Eth0'')] ''id'' = Some (PStr ''Eth0'') \<longrightarrow>
        opt_of [(''id'', PStr ''Eth0'')] (PStr ''id'') =
          PStr (''id'' @ '' '' @ py_str (sanitize_arg (PStr ''Eth0'')))"
    by (elim conjE)
  have len: "(0 :: nat) < length ''Eth0''" by simp
  from c4 len up have c4': "(of_char (lower ''Eth0'' ! 0) :: nat) = of_char (''Eth0'' ! 0) + 32"
    by (metis (full_types))
  from c5 m have c5': "opt_of [(''id'', PStr ''Eth0'')] (PStr ''id'') = PStr ''id eth0''"
    by (simp add: low)
  from c1 c2 c3 i low len c4' v m c5' show ?thesis
    by (simp only:) 
qed

text \<open>
  Claim C6 as first stated fails: in \<^verbatim>\<open>con.up(ID='Eth0')\<close> the keyword name \<open>ID\<close> is
  normalized to \<open>id\<close>, passes validation in that form and is emitted in that form.
\<close>

theorem keyword_name_normalized_counterexample:
  "call words (tool 0 [] []) con ''up'' (Scalar PNone) [(''ID'', PStr ''Eth0'')] [] =
     (Inr [], [[''nmcli'', ''--terse'', ''--fields'', ''NAME,UUID,TYPE,TIMESTAMP-REAL'',
                ''con'', ''up'', ''id'']])"
  by (simp add: call_def con_def run_action_def candidates_def verify_arg_Some sanitize_args_def
      opt_of_def py_join_def lower_def lower_char_def nmcli_def build_fields.simps
      NMCLI_FIELDS_def NMCLI_MULTILINE_KEYS_def words_def tool_def parse_def)

section \<open>Properties of the query\<close>

lemma build_fields_param: "build_fields ns f1 multiline = build_fields ns f2 multiline"
proof (induction ns f1 multiline rule: build_fields.induct)
  case (1 ns f1 multiline)
  show ?case
  proof (cases "map_of NMCLI_FIELDS (join '' '' ns)")
    case (Some fs)
    then show ?thesis by (simp add: build_fields_found)
  next
    case None
    show ?thesis
    proof (cases "ns = []")
      case True
      then show ?thesis by (simp add: build_fields_empty)
    next
      case False
      with None "1.IH" show ?thesis by (simp add: build_fields_pop)
    qed
  qed
qed

lemma build_fields_result:
  "build_fields ns explicit multiline = Inr (ns', fs, multiline') \<Longrightarrow>
   map_of NMCLI_FIELDS (join '' '' ns') = Some fs \<and> multiline' = multiline"
proof (induction ns explicit multiline rule: build_fields.induct)
  case (1 ns explicit multiline)
  show ?case
  proof (cases "map_of NMCLI_FIELDS (join '' '' ns)")
    case (Some fs0)
    with "1.prems" show ?thesis by (simp add: build_fields_found)
  next
    case None
    show ?thesis
    proof (cases "ns = []")
      case True
      with "1.prems" show ?thesis by (simp add: build_fields_empty)
    next
      case False
      with None "1.prems" "1.IH" show ?thesis by (simp add: build_fields_pop)
    qed
  qed
qed

lemma join_Cons: "ys \<noteq> [] \<Longrightarrow> join sep (x # ys) = x @ sep @ join sep ys"
  by (cases ys) simp_all

lemma build_fields_nm_dev:
  "obj = ''nm'' \<or> obj = ''dev'' \<Longrightarrow>
   build_fields (obj # rest) explicit multiline =
     Inr ([obj], the (map_of NMCLI_FIELDS obj), multiline)"
proof (induction rest rule: rev_induct)
  case Nil
  then show ?case
    by (auto simp: build_fields_found NMCLI_FIELDS_def)
next
  case (snoc x xs)
  have "map_of NMCLI_FIELDS (join '' '' (obj # xs @ [x])) = None"
    using snoc.prems by (auto simp: join_Cons NMCLI_FIELDS_def)
  then have "build_fields (obj # xs @ [x]) explicit multiline =
             build_fields (butlast (obj # xs @ [x])) explicit multiline"
    by (rule build_fields_pop) simp
  with snoc show ?case by (simp add: butlast_append)
qed

lemma parse_single_total: "\<exists>records. parse stdout fs False = Inr records"
  by (simp add: parse_def)

lemma nmcli_same_fields:
  assumes "resolved_fields obj cmd f1 multiline = resolved_fields obj cmd f2 multiline"
  shows "nmcli shlex_split shell obj (Some cmd) f1 multiline log =
         nmcli shlex_split shell obj (Some cmd) f2 multiline log"
proof -
  let ?b1 = "build_fields ([obj, cmd] @ (case f1 of None \<Rightarrow> [] | Some fs \<Rightarrow> fs)) f1 multiline"
  let ?b2 = "build_fields ([obj, cmd] @ (case f2 of None \<Rightarrow> [] | Some fs \<Rightarrow> fs)) f2 multiline"
  show ?thesis
  proof (cases ?b1)
    case (Inl e)
    with assms have "?b2 = Inl e"
      by (auto simp: resolved_fields_def split: sum.splits)
    with Inl show ?thesis by (simp add: nmcli_def)
  next
    case (Inr r1)
    obtain ns1 fs1 m1 where r1: "r1 = (ns1, fs1, m1)" by (cases r1)
    with Inr have m1: "m1 = multiline" by (auto dest: build_fields_result)
    from assms Inr r1 obtain ns2 m2 where b2: "?b2 = Inr (ns2, fs1, m2)"
      by (auto simp: resolved_fields_def split: sum.splits)
    then have m2: "m2 = multiline" by (auto dest: build_fields_result)
    from Inr r1 m1 b2 m2 show ?thesis by (simp add: nmcli_def)
  qed
qed

text \<open>
  Claim C9, as amended.  For a query that invoked the external tool with \<open>args\<close> and got
  \<open>(rc, out, err)\<close>: a non-zero \<open>rc\<close> raises the exception whose message is
  \<^verbatim>\<open>nmcli return <rc> code. STDERR='<err>'\<close>, with \<open>rc\<close> in decimal; a zero \<open>rc\<close> returns
  what the parser makes of \<open>out\<close> with the resolved field set and flag, which in
  single-line mode is always a sequence of records.
\<close>

theorem exit_code_decides_outcome:
  assumes "snd (nmcli shlex_split shell obj command explicit multiline log) = log @ [args]"
    and "shell args = Inr (rc, out, err)"
  shows "\<exists>cmd ns fs multiline'.
           command = Some cmd
           \<and> build_fields ([obj, cmd] @ (case explicit of None \<Rightarrow> [] | Some f \<Rightarrow> f))
                 explicit multiline = Inr (ns, fs, multiline')
           \<and> (rc \<noteq> 0 \<longrightarrow>
                fst (nmcli shlex_split shell obj command explicit multiline log) =
                  Inl (Exception (''nmcli return '' @ str_int rc @ '' code. STDERR=''
                                    @ [CHR 0x27] @ err @ [CHR 0x27]))
                \<and> dec_int (str_int rc) = rc)
           \<and> (rc = 0 \<longrightarrow>
                fst (nmcli shlex_split shell obj command explicit multiline log) =
                  parse out fs multiline')
           \<and> (rc = 0 \<and> \<not> multiline' \<longrightarrow>
                (\<exists>records. fst (nmcli shlex_split shell obj command explicit multiline log) =
                   Inr records))"
proof -
  from assms(1) obtain cmd where cmd: "command = Some cmd"
    by (cases command) (auto simp: nmcli_def)
  let ?b = "build_fields ([obj, cmd] @ (case explicit of None \<Rightarrow> [] | Some f \<Rightarrow> f))
              explicit multiline"
  from assms(1) cmd obtain ns fs multiline' where b: "?b = Inr (ns, fs, multiline')"
    by (cases ?b) (auto simp: nmcli_def)
  let ?t = "if cmd \<noteq> [] then shlex_split cmd else Some []"
  from assms(1) cmd b obtain toks where t: "?t = Some toks"
    by (cases ?t) (auto simp: nmcli_def)
  let ?args = "[''nmcli'', ''--terse'', ''--fields'', join '','' fs,
                if obj \<noteq> [] then obj else []] @ toks"
  have "snd (nmcli shlex_split shell obj command explicit multiline log) = log @ [?args]"
    using cmd b t by (auto simp: nmcli_def Let_def split: sum.splits)
  with assms(1) have args: "args = ?args" by simp
  have res: "nmcli shlex_split shell obj command explicit multiline log =
        (if rc = 0 then (parse out fs multiline', log @ [args])
         else (Inl (Exception (process_msg rc err)), log @ [args]))"
    using cmd b t assms(2) unfolding args by (simp add: nmcli_def Let_def)
  show ?thesis
    using cmd b res parse_single_total [of out fs]
    by (auto simp: process_msg_def dec_int_str_int)
qed

theorem exit_code_decides_outcome_witness:
  "nmcli words (tool 3 [] ''boom'') ''nm'' (Some ''status'') None False [] =
     (Inl (Exception (''nmcli return 3 code. STDERR='' @ [CHR 0x27] @ ''boom'' @ [CHR 0x27])),
      [[''nmcli'', ''--terse'', ''--fields'',
        ''RUNNING,STATE,WIFI-HARDWARE,WIFI,WWAN-HARDWARE,WWAN'', ''nm'', ''status'']])
   \<and> nmcli words (tool 0 ''eth0:802-3-ethernet:connected'' ''warn'') ''dev'' (Some ''status'')
        None False [] =
     (Inr [[''DEVICE'' \<mapsto> ''eth0'', ''TYPE'' \<mapsto> ''802-3-ethernet'', ''STATE'' \<mapsto> ''connected'']],
      [[''nmcli'', ''--terse'', ''--fields'', ''DEVICE,TYPE,STATE'', ''dev'', ''status'']])"
proof -
  let ?a1 = "[''nmcli'', ''--terse'', ''--fields'',
        ''RUNNING,STATE,WIFI-HARDWARE,WIFI,WWAN-HARDWARE,WWAN'', ''nm'', ''status'']"
  let ?a2 = "[''nmcli'', ''--terse'', ''--fields'', ''DEVICE,TYPE,STATE'', ''dev'', ''status'']"
  have b1: "build_fields ([''nm'', ''status''] @ (case None of None \<Rightarrow> [] | Some f \<Rightarrow> f)) None False =
      Inr ([''nm''], [''RUNNING'', ''STATE'', ''WIFI-HARDWARE'', ''WIFI'', ''WWAN-HARDWARE'', ''WWAN''], False)"
    by (simp add: build_fields.simps NMCLI_FIELDS_def NMCLI_MULTILINE_KEYS_def)
  have b2: "build_fields ([''dev'', ''status''] @ (case None of None \<Rightarrow> [] | Some f \<Rightarrow> f)) None False =
      Inr ([''dev''], [''DEVICE'', ''TYPE'', ''STATE''], False)"
    by (simp add: build_fields.simps NMCLI_FIELDS_def NMCLI_MULTILINE_KEYS_def)
  have l1: "snd (nmcli words (tool 3 [] ''boom'') ''nm'' (Some ''status'') None False []) = [] @ [?a1]"
    using b1 by (simp add: nmcli_def words_def tool_def)
  have l2: "snd (nmcli words (tool 0 ''eth0:802-3-ethernet:connected'' ''warn'') ''dev''
                   (Some ''status'') None False []) = [] @ [?a2]"
    using b2 by (simp add: nmcli_def words_def tool_def)
  have t1: "tool 3 [] ''boom'' ?a1 = Inr (3, [], ''boom'')" by (simp add: tool_def)
  have t2: "tool 0 ''eth0:802-3-ethernet:connected'' ''warn'' ?a2 =
              Inr (0, ''eth0:802-3-ethernet:connected'', ''warn'')" by (simp add: tool_def)
  have s3: "str_int 3 = ''3''"
    by (simp add: str_int_def str_nat.simps [of 3] digit_def)
  have p: "parse ''eth0:802-3-ethernet:connected'' [''DEVICE'', ''TYPE'', ''STATE''] False =
      Inr [[''DEVICE'' \<mapsto> ''eth0'', ''TYPE'' \<mapsto> ''802-3-ethernet'', ''STATE'' \<mapsto> ''connected'']]"
    by (simp add: parse_def dict_def)
  from exit_code_decides_outcome [OF l1 t1] b1 s3
  have r1: "fst (nmcli words (tool 3 [] ''boom'') ''nm'' (Some ''status'') None False []) =
      Inl (Exception (''nmcli return 3 code. STDERR='' @ [CHR 0x27] @ ''boom'' @ [CHR 0x27]))"
    by auto
  from exit_code_decides_outcome [OF l2 t2] b2 p
  have r2: "fst (nmcli words (tool 0 ''eth0:802-3-ethernet:connected'' ''warn'') ''dev''
                   (Some ''status'') None False []) =
      Inr [[''DEVICE'' \<mapsto> ''eth0'', ''TYPE'' \<mapsto> ''802-3-ethernet'', ''STATE'' \<mapsto> ''connected'']]"
    by auto
  from r1 r2 l1 l2 show ?thesis
    by (simp add: prod_eq_iff)
qed

text \<open>
  Claim C9 as first stated fails: the tool is invoked and exits with code zero, and the
  query, in multiline mode, raises \<^verbatim>\<open>ValueError\<close> instead of returning records.
\<close>

theorem exit_zero_multiline_raises_counterexample:
  "nmcli words (tool 0 ''state:up'' []) ''con'' (Some ''list'') None True [] =
     (Inl ValueError,
      [[''nmcli'', ''--terse'', ''--fields'', ''NAME,UUID,TYPE,TIMESTAMP-REAL'', ''con'', ''list'']])"
  by (simp add: nmcli_def build_fields.simps NMCLI_FIELDS_def NMCLI_MULTILINE_KEYS_def
      words_def tool_def parse_def split_first_def)

text \<open>
  Claim C10, as amended.  The entries of \<^verbatim>\<open>fields\<close> are appended to the resolution path
  and are used for nothing else.  A query with \<^verbatim>\<open>fields=None\<close> is the query with
  \<^verbatim>\<open>fields=[]\<close>; for the objects \<open>nm\<close> and \<open>dev\<close> the result does not depend on
  \<^verbatim>\<open>fields\<close>; two queries that differ only in \<^verbatim>\<open>fields\<close> and resolve the same field set
  have the same result; and the resolved field set is always an entry of the table.
\<close>

theorem explicit_fields_only_extend_path:
  "nmcli shlex_split shell obj command None multiline log =
     nmcli shlex_split shell obj command (Some []) multiline log
   \<and> (obj = ''nm'' \<or> obj = ''dev'' \<longrightarrow>
        nmcli shlex_split shell obj command f1 multiline log =
        nmcli shlex_split shell obj command f2 multiline log)
   \<and> (resolved_fields obj cmd f1 multiline = resolved_fields obj cmd f2 multiline \<longrightarrow>
        nmcli shlex_split shell obj (Some cmd) f1 multiline log =
        nmcli shlex_split shell obj (Some cmd) f2 multiline log)
   \<and> (resolved_fields obj cmd f1 multiline = Inr fs \<longrightarrow> fs \<in> snd ` set NMCLI_FIELDS)"
proof (intro conjI impI)
  show "nmcli shlex_split shell obj command None multiline log =
        nmcli shlex_split shell obj command (Some []) multiline log"
  proof (cases command)
    case None
    then show ?thesis by (simp add: nmcli_def)
  next
    case (Some c)
    have "resolved_fields obj c None multiline = resolved_fields obj c (Some []) multiline"
      by (simp add: resolved_fields_def build_fields_param [of _ None _ "Some []"])
    then have "nmcli shlex_split shell obj (Some c) None multiline log =
               nmcli shlex_split shell obj (Some c) (Some []) multiline log"
      by (rule nmcli_same_fields)
    with Some show ?thesis by simp
  qed
  show "nmcli shlex_split shell obj command f1 multiline log =
        nmcli shlex_split shell obj command f2 multiline log"
    if "obj = ''nm'' \<or> obj = ''dev''"
  proof (cases command)
    case None
    then show ?thesis by (simp add: nmcli_def)
  next
    case (Some c)
    have "resolved_fields obj c f1 multiline = resolved_fields obj c f2 multiline"
      using that by (simp add: resolved_fields_def build_fields_nm_dev)
    then have "nmcli shlex_split shell obj (Some c) f1 multiline log =
               nmcli shlex_split shell obj (Some c) f2 multiline log"
      by (rule nmcli_same_fields)
    with Some show ?thesis by simp
  qed
  show "nmcli shlex_split shell obj (Some cmd) f1 multiline log =
        nmcli shlex_split shell obj (Some cmd) f2 multiline log"
    if "resolved_fields obj cmd f1 multiline = resolved_fields obj cmd f2 multiline"
    using that by (rule nmcli_same_fields)
  show "fs \<in> snd ` set NMCLI_FIELDS" if "resolved_fields obj cmd f1 multiline = Inr fs"
  proof -
    from that obtain ns m where
      "build_fields ([obj, cmd] @ (case f1 of None \<Rightarrow> [] | Some fs \<Rightarrow> fs)) f1 multiline
         = Inr (ns, fs, m)"
      by (auto simp: resolved_fields_def split: sum.splits)
    then have "map_of NMCLI_FIELDS (join '' '' ns) = Some fs"
      by (auto dest: build_fields_result)
    then have "(join '' '' ns, fs) \<in> set NMCLI_FIELDS" by (rule map_of_SomeD)
    then show ?thesis by force
  qed
qed

theorem explicit_fields_only_extend_path_witness:
  "nmcli words (tool 0 ''a:b:c'' []) ''dev'' (Some ''list'') None False [] =
   nmcli words (tool 0 ''a:b:c'' []) ''dev'' (Some ''list'') (Some [''iface'', ''eth0'']) False []
   \<and> resolved_fields ''con'' ''status'' None False
       = resolved_fields ''con'' ''status'' (Some [''id'']) False
   \<and> nmcli words (tool 0 ''a:b:c'' []) ''con'' (Some ''status'') None False [] =
     nmcli words (tool 0 ''a:b:c'' []) ''con'' (Some ''status'') (Some [''id'']) False []
   \<and> resolved_fields ''con'' ''status'' None False =
       Inr [''NAME'', ''UUID'', ''DEVICES'', ''DEFAULT'', ''VPN'', ''MASTER-PATH'']
   \<and> [''NAME'', ''UUID'', ''DEVICES'', ''DEFAULT'', ''VPN'', ''MASTER-PATH'']
       \<in> snd ` set NMCLI_FIELDS"
proof -
  have r1: "resolved_fields ''con'' ''status'' None False =
       Inr [''NAME'', ''UUID'', ''DEVICES'', ''DEFAULT'', ''VPN'', ''MASTER-PATH'']"
    by (simp add: resolved_fields_def build_fields.simps NMCLI_FIELDS_def NMCLI_MULTILINE_KEYS_def)
  have r2: "resolved_fields ''con'' ''status'' (Some [''id'']) False =
       Inr [''NAME'', ''UUID'', ''DEVICES'', ''DEFAULT'', ''VPN'', ''MASTER-PATH'']"
    by (simp add: resolved_fields_def build_fields.simps NMCLI_FIELDS_def NMCLI_MULTILINE_KEYS_def)
  note e1 = explicit_fields_only_extend_path [of words "tool 0 ''a:b:c'' []" "''dev''"
      "Some ''list''" False "[]" None "Some [''iface'', ''eth0'']" "''list''"
      "[''DEVICE'', ''TYPE'', ''STATE'']"]
  note e2 = explicit_fields_only_extend_path [of words "tool 0 ''a:b:c'' []" "''con''"
      "Some ''status''" False "[]" None "Some [''id'']" "''status''"
      "[''NAME'', ''UUID'', ''DEVICES'', ''DEFAULT'', ''VPN'', ''MASTER-PATH'']"]
  from e1 have w1: "nmcli words (tool 0 ''a:b:c'' []) ''dev'' (Some ''list'') None False [] =
   nmcli words (tool 0 ''a:b:c'' []) ''dev'' (Some ''list'') (Some [''iface'', ''eth0'']) False []"
    by blast
  from r1 r2 have eq: "resolved_fields ''con'' ''status'' None False
       = resolved_fields ''con'' ''status'' (Some [''id'']) False"
    by (simp only:)
  from e2 eq have w2: "nmcli words (tool 0 ''a:b:c'' []) ''con'' (Some ''status'') None False [] =
     nmcli words (tool 0 ''a:b:c'' []) ''con'' (Some ''status'') (Some [''id'']) False []"
    by blast
  from e2 r1 have w3: "[''NAME'', ''UUID'', ''DEVICES'', ''DEFAULT'', ''VPN'', ''MASTER-PATH'']
       \<in> snd ` set NMCLI_FIELDS"
    by blast
  from w1 w2 w3 r1 r2 show ?thesis by (simp only:)
qed

text \<open>
  Claim C10 as first stated fails: on \<open>con\<close> with the command \<open>list\<close>, the query without
  \<^verbatim>\<open>fields\<close> resolves the four fields of \<open>con\<close> and returns one record, and the query with
  \<^verbatim>\<open>fields=['id']\<close> resolves the 18 fields of \<open>con list id\<close> and returns none.
\<close>

theorem explicit_fields_change_result_counterexample:
  "nmcli words (tool 0 ''home:u1:wifi:0'' []) ''con'' (Some ''list'') None False [] =
     (Inr [[''NAME'' \<mapsto> ''home'', ''UUID'' \<mapsto> ''u1'', ''TYPE'' \<mapsto> ''wifi'',
            ''TIMESTAMP-REAL'' \<mapsto> ''0'']],
      [[''nmcli'', ''--terse'', ''--fields'', ''NAME,UUID,TYPE,TIMESTAMP-REAL'', ''con'', ''list'']])
   \<and> nmcli words (tool 0 ''home:u1:wifi:0'' []) ''con'' (Some ''list'') (Some [''id'']) False [] =
     (Inr [],
      [[''nmcli'', ''--terse'', ''--fields'',
        ''connection,802-3-ethernet,802-1x,802-11-wireless,802-11-wireless-security,ipv4,ipv6,serial,ppp,pppoe,gsm,cdma,bluetooth,802-11-olpc-mesh,vpn,infiniband,bond,vlan'',
        ''con'', ''list'']])"
  by (simp add: nmcli_def build_fields.simps NMCLI_FIELDS_def NMCLI_MULTILINE_KEYS_def
      words_def tool_def parse_def dict_def)

end
